theory Spec2Isabelle
  imports Main "HOL-Library.Log_Nat"
begin

section \<open>The data model of \<^verbatim>\<open>cmd/scrape.go\<close>\<close>

text \<open>
  \<^verbatim>\<open>prometheus.Labels\<close> is \<^verbatim>\<open>map[string]string\<close>. A Go map value is a reference to a
  map object: the objects live in a store (a list, addressed by position), a reference
  is \<open>Some a\<close> for the object at address \<open>a\<close> and \<open>None\<close> for the nil map.
\<close>

type_synonym Labels = "string \<rightharpoonup> string"
type_synonym addr = nat
type_synonym labels_ref = "addr option"

record ProjectCountConfig =
  IncludeSubGroups :: "bool option"

datatype MemberCountConfig = MemberCountConfig

record GroupConfig =
  ID :: string
  ProjectCount :: "ProjectCountConfig option"
  MemberCount :: "MemberCountConfig option"

record Config =
  DefaultLabels :: labels_ref
  Groups :: "GroupConfig list"

subsection \<open>The platform client (\<^verbatim>\<open>gitlab.Client\<close>), as far as the code uses it\<close>

record ListOptions =
  Page :: int
  PerPage :: int

record ListGroupProjectsOptions =
  projects_ListOptions :: ListOptions
  opt_IncludeSubGroups :: "bool option"
  Simple :: "bool option"

record ListGroupMembersOptions =
  members_ListOptions :: ListOptions

record Response =
  TotalItems :: int

record Project =
  project_id :: int

record GroupMember =
  member_id :: int

datatype api_call =
  ListGroupProjects_call string ListGroupProjectsOptions
| ListGroupMembers_call string ListGroupMembersOptions

text \<open>
  The client is a parameter of the pipeline. Each method answers a request with an error
  (its message) or with the returned records and the response metadata; the answer may
  depend on the calls made before (the first argument), so that a stub can count calls.
  A successful call always comes with a response: this is the client library's contract.
\<close>

record Client =
  ListGroupProjects ::
    "api_call list \<Rightarrow> string \<Rightarrow> ListGroupProjectsOptions \<Rightarrow> string + Project list \<times> Response"
  ListGroupMembers ::
    "api_call list \<Rightarrow> string \<Rightarrow> ListGroupMembersOptions \<Rightarrow> string + GroupMember list \<times> Response"

subsection \<open>Gauges and the pusher\<close>

record Gauge =
  Name :: string
  Help :: string
  ConstLabels :: Labels
  gauge_value :: int

record Pusher =
  url :: string
  job :: string
  collectors :: "Gauge list"

subsection \<open>The world the program acts on, and how a run ends\<close>

record world =
  heap :: "Labels list"
  stdout :: "string list"
  api_calls :: "api_call list"
  push_calls :: "Pusher list"

datatype abort = OsExit int | NilDereference

type_synonym 'a prog = "world \<Rightarrow> (abort + 'a) \<times> world"

text \<open>
  What the command reads from outside: viper's configuration (\<open>GetString\<close> takes the key
  and the environment variable bound to it), the client constructor and the answer of
  the push gateway to a push. The decoded configuration refers to its default labels
  by their address in the store.
\<close>

record Env =
  ReadInConfig :: "string \<Rightarrow> string option"
  GetString :: "string \<Rightarrow> string \<Rightarrow> string"
  Unmarshal :: "string + Config"
  NewClient :: "string \<Rightarrow> string + Client"
  Push :: "Pusher \<Rightarrow> string option"

section \<open>Formatting and printing\<close>

definition newline :: string where
  "newline = [CHR 0x0A]"

function string_of_nat :: "nat \<Rightarrow> string" where
  "string_of_nat n =
     (if n < 10 then [char_of (48 + n)]
      else string_of_nat (n div 10) @ [char_of (48 + n mod 10)])"
  by pat_completeness auto
termination
  by (relation "measure (\<lambda>n. n)") auto

declare string_of_nat.simps [simp del]

definition string_of_int :: "int \<Rightarrow> string" where
  "string_of_int i =
     (if i < 0 then CHR ''-'' # string_of_nat (nat (- i)) else string_of_nat (nat i))"

definition print :: "string \<Rightarrow> world \<Rightarrow> world" where
  "print s w = w\<lparr>stdout := stdout w @ [s]\<rparr>"

section \<open>Conversion of a count to \<^verbatim>\<open>float64\<close>\<close>

text \<open>
  \<^verbatim>\<open>float64(n)\<close> rounds the integer to 53 significant bits, to nearest, ties to even.
  The result is again an integer; \<open>float64_of_int n\<close> is its value.
\<close>

definition float64_of_int :: "int \<Rightarrow> int" where
  "float64_of_int n =
     (if \<bar>n\<bar> \<le> 2 ^ 53 then n
      else
        let a = \<bar>n\<bar>;
            e = floorlog 2 (nat a) - 53;
            q = a div 2 ^ e;
            r = a mod 2 ^ e;
            h = 2 ^ (e - 1);
            q' = (if h < r \<or> (r = h \<and> odd q) then q + 1 else q)
        in sgn n * (q' * 2 ^ e))"

section \<open>The label merger\<close>

definition deref :: "Labels list \<Rightarrow> labels_ref \<Rightarrow> Labels" where
  "deref h r =
     (case r of None \<Rightarrow> Map.empty
      | Some a \<Rightarrow> if a < length h then h ! a else Map.empty)"

definition new_map :: "Labels \<Rightarrow> Labels list \<Rightarrow> addr \<times> Labels list" where
  "new_map m h = (length h, h @ [m])"

text \<open>
  \<^verbatim>\<open>maps.Copy(dst, src)\<close> stores every entry of \<open>src\<close> in the object \<open>dst\<close>. Keys are
  unique, so the order of iteration does not matter.
\<close>

definition maps_Copy :: "addr \<Rightarrow> labels_ref \<Rightarrow> Labels list \<Rightarrow> Labels list" where
  "maps_Copy dst src h = h[dst := (h ! dst) ++ deref h src]"

definition mergeLabels :: "labels_ref list \<Rightarrow> Labels list \<Rightarrow> addr \<times> Labels list" where
  "mergeLabels labelSets h =
     (let (merged, h0) = new_map Map.empty h
      in (merged, foldl (\<lambda>h' labels. maps_Copy merged labels h') h0 labelSets))"

section \<open>The collectors\<close>

definition getProjectCount :: "Client \<Rightarrow> GroupConfig \<Rightarrow> int prog" where
  "getProjectCount git grp w =
     (case ProjectCount grp of
        None \<Rightarrow> (Inl NilDereference, w)
      | Some pc \<Rightarrow>
          let includeSubGroups = (case IncludeSubGroups pc of None \<Rightarrow> False | Some b \<Rightarrow> b);
              opts = \<lparr>projects_ListOptions = \<lparr>Page = 1, PerPage = 1\<rparr>,
                      opt_IncludeSubGroups = Some includeSubGroups,
                      Simple = Some True\<rparr>;
              res = ListGroupProjects git (api_calls w) (ID grp) opts;
              w1 = w\<lparr>api_calls := api_calls w @ [ListGroupProjects_call (ID grp) opts]\<rparr>
          in case res of
               Inl err \<Rightarrow>
                 (Inl (OsExit 1),
                  print (''Failed to list projects for group '' @ ID grp @ '': '' @ err @ newline) w1)
             | Inr (projects, resp) \<Rightarrow> (Inr (TotalItems resp), w1))"

definition getGroupMembersCount :: "Client \<Rightarrow> GroupConfig \<Rightarrow> int prog" where
  "getGroupMembersCount git grp w =
     (let options = \<lparr>members_ListOptions = \<lparr>Page = 1, PerPage = 1\<rparr>\<rparr>;
          res = ListGroupMembers git (api_calls w) (ID grp) options;
          w1 = w\<lparr>api_calls := api_calls w @ [ListGroupMembers_call (ID grp) options]\<rparr>
      in case res of
           Inl err \<Rightarrow>
             (Inl (OsExit 1),
              print (''Failed to list members for group '' @ ID grp @ '': '' @ err @ newline) w1)
         | Inr (members, resp) \<Rightarrow> (Inr (TotalItems resp), w1))"

section \<open>The pipeline\<close>

definition bind_prog :: "'a prog \<Rightarrow> ('a \<Rightarrow> 'b prog) \<Rightarrow> 'b prog" where
  "bind_prog m f w = (case m w of (Inl e, w') \<Rightarrow> (Inl e, w') | (Inr x, w') \<Rightarrow> f x w')"

text \<open>
  \<^verbatim>\<open>prometheus.NewGauge\<close> copies the constant labels into the gauge, so the gauge holds
  the contents of the merged map, not a reference to it.
\<close>

definition labelled_gauge ::
  "string \<Rightarrow> string \<Rightarrow> Config \<Rightarrow> GroupConfig \<Rightarrow> int \<Rightarrow> Pusher \<Rightarrow> Pusher prog" where
  "labelled_gauge name help config grp count pusher w =
     (let (group_labels, h1) = new_map [''group_id'' \<mapsto> ID grp] (heap w);
          (labels, h2) = mergeLabels [DefaultLabels config, Some group_labels] h1;
          gauge = \<lparr>Name = name, Help = help, ConstLabels = deref h2 (Some labels),
                   gauge_value = float64_of_int count\<rparr>
      in (Inr (pusher\<lparr>collectors := collectors pusher @ [gauge]\<rparr>), w\<lparr>heap := h2\<rparr>))"

text \<open>The two blocks of the loop body (lines 99 to 113 and 115 to 129).\<close>

definition project_count_step :: "Client \<Rightarrow> Config \<Rightarrow> GroupConfig \<Rightarrow> Pusher \<Rightarrow> Pusher prog" where
  "project_count_step git config grp pusher =
     (if ProjectCount grp \<noteq> None then
        bind_prog (getProjectCount git grp) (\<lambda>projectCount w.
          labelled_gauge ''gitlab_group_project_count'' ''Number of projects in the GitLab group''
            config grp projectCount pusher
            (print (''Project count in group '' @ ID grp @ '': ''
                    @ string_of_int projectCount @ newline) w))
      else (\<lambda>w. (Inr pusher, w)))"

definition member_count_step :: "Client \<Rightarrow> Config \<Rightarrow> GroupConfig \<Rightarrow> Pusher \<Rightarrow> Pusher prog" where
  "member_count_step git config grp pusher =
     (if MemberCount grp \<noteq> None then
        bind_prog (getGroupMembersCount git grp) (\<lambda>groupMembersCount w.
          labelled_gauge ''gitlab_group_members_count'' ''Number of members in the GitLab group''
            config grp groupMembersCount pusher
            (print (''Group members count in group '' @ ID grp @ '': ''
                    @ string_of_int groupMembersCount @ newline) w))
      else (\<lambda>w. (Inr pusher, w)))"

definition scrape_group :: "Client \<Rightarrow> Config \<Rightarrow> GroupConfig \<Rightarrow> Pusher \<Rightarrow> Pusher prog" where
  "scrape_group git config grp pusher =
     bind_prog (project_count_step git config grp pusher)
       (member_count_step git config grp)"

fun scrape_groups :: "Client \<Rightarrow> Config \<Rightarrow> GroupConfig list \<Rightarrow> Pusher \<Rightarrow> Pusher prog" where
  "scrape_groups git config [] pusher = (\<lambda>w. (Inr pusher, w))"
| "scrape_groups git config (grp # grps) pusher =
     bind_prog (scrape_group git config grp pusher) (scrape_groups git config grps)"

text \<open>
  The pusher collects the gauges handed to \<^verbatim>\<open>pusher.Collector\<close>, in order. \<^verbatim>\<open>Push\<close>
  hands the pusher, with all its gauges, to the gateway side (registration and
  transport, both outside the sources): the environment answers with an error or
  with none, and the call is logged.
\<close>

definition push_New :: "string \<Rightarrow> string \<Rightarrow> Pusher" where
  "push_New u j = \<lparr>url = u, job = j, collectors = []\<rparr>"

definition Pusher_Push :: "Env \<Rightarrow> Pusher \<Rightarrow> world \<Rightarrow> string option \<times> world" where
  "Pusher_Push env pusher w = (Push env pusher, w\<lparr>push_calls := push_calls w @ [pusher]\<rparr>)"

text \<open>
  \<^verbatim>\<open>scrape\<close> receives the address of the command's local configuration, which is
  never nil, so the configuration is passed as a value.
\<close>

definition scrape :: "Env \<Rightarrow> Config \<Rightarrow> string \<Rightarrow> string \<Rightarrow> unit prog" where
  "scrape env config accessToken pushGatewayURL w =
     (case NewClient env accessToken of
        Inl err \<Rightarrow> (Inl (OsExit 1), print (''Failed to create client: '' @ err @ newline) w)
      | Inr git \<Rightarrow>
          (case scrape_groups git config (Groups config)
                  (push_New pushGatewayURL ''gitlab_scrape'') w of
             (Inl e, w1) \<Rightarrow> (Inl e, w1)
           | (Inr pusher, w1) \<Rightarrow>
               (case Pusher_Push env pusher w1 of
                  (Some err, w2) \<Rightarrow>
                    (Inl (OsExit 1),
                     print (''Failed to push metrics to Push Gateway: '' @ err @ newline) w2)
                | (None, w2) \<Rightarrow> (Inr (), w2))))"

section \<open>The command\<close>

definition getRequiredValue :: "Env \<Rightarrow> string \<Rightarrow> string \<Rightarrow> string \<Rightarrow> string prog" where
  "getRequiredValue env key envVar errMsg w =
     (let v = GetString env key envVar
      in if v = '''' then (Inl (OsExit 1), print (errMsg @ newline) w) else (Inr v, w))"

definition token_hint :: string where
  "token_hint = ''Please provide an access token using the --token flag or GITLAB_ACCESS_TOKEN environment variable''"

definition gateway_hint :: string where
  "gateway_hint = ''Please provide a Push Gateway URL using the --pushgateway flag or PUSHGATEWAY_URL environment variable''"

definition Run :: "Env \<Rightarrow> string \<Rightarrow> unit prog" where
  "Run env configFile w =
     (case ReadInConfig env configFile of
        Some err \<Rightarrow> (Inl (OsExit 1), print (''Failed to read config file: '' @ err @ newline) w)
      | None \<Rightarrow>
          bind_prog (getRequiredValue env ''access_token'' ''GITLAB_ACCESS_TOKEN'' token_hint)
            (\<lambda>accessToken.
          bind_prog (getRequiredValue env ''push_gateway_url'' ''PUSHGATEWAY_URL'' gateway_hint)
            (\<lambda>pushGatewayURL w1.
               case Unmarshal env of
                 Inl err \<Rightarrow>
                   (Inl (OsExit 1), print (''Failed to unmarshal config: '' @ err @ newline) w1)
               | Inr config \<Rightarrow> scrape env config accessToken pushGatewayURL w1)) w)"

text \<open>
  Modelled from the spec: the root command and \<^verbatim>\<open>main\<close>, which run after the command
  returns, are not among the sources; by the spec's exit behaviour a run that returns
  ends the process with status 0. Otherwise the status is the argument of
  \<^verbatim>\<open>os.Exit\<close>, or 2 after a run-time panic.
\<close>

definition exit_status :: "(abort + unit) \<Rightarrow> int" where
  "exit_status r = (case r of Inl (OsExit c) \<Rightarrow> c | Inl NilDereference \<Rightarrow> 2 | Inr u \<Rightarrow> 0)"

section \<open>Observations used in the statements\<close>

text \<open>The contents of the map that \<^verbatim>\<open>mergeLabels\<close> returns.\<close>

definition mergeLabels_result :: "labels_ref list \<Rightarrow> Labels list \<Rightarrow> Labels" where
  "mergeLabels_result labelSets h =
     (let (merged, h') = mergeLabels labelSets h in deref h' (Some merged))"

text \<open>A reference of a running program is nil or the address of an object of the store.\<close>

definition valid_ref :: "Labels list \<Rightarrow> labels_ref \<Rightarrow> bool" where
  "valid_ref h r = (case r of None \<Rightarrow> True | Some a \<Rightarrow> a < length h)"

text \<open>
  The requests of the two collectors, the requests a group's enabled collectors make (in
  the order of the loop body), and what a client answers to a request after a history.
\<close>

definition projects_query :: "string \<Rightarrow> bool \<Rightarrow> api_call" where
  "projects_query gid sub =
     ListGroupProjects_call gid
       \<lparr>projects_ListOptions = \<lparr>Page = 1, PerPage = 1\<rparr>,
        opt_IncludeSubGroups = Some sub, Simple = Some True\<rparr>"

definition members_query :: "string \<Rightarrow> api_call" where
  "members_query gid = ListGroupMembers_call gid \<lparr>members_ListOptions = \<lparr>Page = 1, PerPage = 1\<rparr>\<rparr>"

definition project_calls :: "GroupConfig \<Rightarrow> api_call list" where
  "project_calls grp =
     (case ProjectCount grp of None \<Rightarrow> []
      | Some pc \<Rightarrow> [projects_query (ID grp) (IncludeSubGroups pc = Some True)])"

definition member_calls :: "GroupConfig \<Rightarrow> api_call list" where
  "member_calls grp =
     (case MemberCount grp of None \<Rightarrow> [] | Some mc \<Rightarrow> [members_query (ID grp)])"

definition enabled_calls :: "GroupConfig \<Rightarrow> api_call list" where
  "enabled_calls grp = project_calls grp @ member_calls grp"

fun answered :: "Client \<Rightarrow> api_call list \<Rightarrow> api_call \<Rightarrow> string + int" where
  "answered git hist (ListGroupProjects_call gid opts) =
     (case ListGroupProjects git hist gid opts of
        Inl err \<Rightarrow> Inl err | Inr (projects, resp) \<Rightarrow> Inr (TotalItems resp))"
| "answered git hist (ListGroupMembers_call gid opts) =
     (case ListGroupMembers git hist gid opts of
        Inl err \<Rightarrow> Inl err | Inr (members, resp) \<Rightarrow> Inr (TotalItems resp))"

definition call_failed :: "Client \<Rightarrow> api_call list \<Rightarrow> api_call \<Rightarrow> bool" where
  "call_failed git hist c = isl (answered git hist c)"

fun calls_ok :: "Client \<Rightarrow> api_call list \<Rightarrow> api_call list \<Rightarrow> bool" where
  "calls_ok git hist [] = True"
| "calls_ok git hist (c # cs) = (\<not> call_failed git hist c \<and> calls_ok git (hist @ [c]) cs)"

fun made_calls :: "Client \<Rightarrow> api_call list \<Rightarrow> api_call list \<Rightarrow> api_call list" where
  "made_calls git hist [] = []"
| "made_calls git hist (c # cs) =
     c # (if call_failed git hist c then [] else made_calls git (hist @ [c]) cs)"

text \<open>The messages the program prints before it exits with status 1.\<close>

definition is_diagnostic :: "string \<Rightarrow> bool" where
  "is_diagnostic s =
     list_ex (\<lambda>p. take (length p) s = p)
       [''Failed to read config file: '', token_hint, gateway_hint,
        ''Failed to unmarshal config: '', ''Failed to create client: '',
        ''Failed to list projects for group '', ''Failed to list members for group '',
        ''Failed to push metrics to Push Gateway: '']"

text \<open>
  The effect of a part of the loop on the call log and on the pusher's gateway: the calls
  made are the expected ones up to the first failure, nothing is pushed, and the part
  returns exactly when every expected call succeeds; otherwise the process has exited
  with status 1 after a diagnostic.
\<close>

definition step_trace ::
  "Client \<Rightarrow> api_call list \<Rightarrow> world \<Rightarrow> ((abort + Pusher) \<times> world) \<Rightarrow> bool" where
  "step_trace git expected w out =
     (case out of (r, w') \<Rightarrow>
        api_calls w' = api_calls w @ made_calls git (api_calls w) expected
        \<and> push_calls w' = push_calls w
        \<and> (\<exists>msgs. stdout w' = stdout w @ msgs
             \<and> (case r of
                  Inr p' \<Rightarrow> calls_ok git (api_calls w) expected
                | Inl e \<Rightarrow> e = OsExit 1 \<and> \<not> calls_ok git (api_calls w) expected
                           \<and> msgs \<noteq> [] \<and> is_diagnostic (last msgs))))"

text \<open>All requests of a configuration, and the two values the command requires.\<close>

definition expected_calls :: "Config \<Rightarrow> api_call list" where
  "expected_calls config = concat (map enabled_calls (Groups config))"

definition token_of :: "Env \<Rightarrow> string" where
  "token_of env = GetString env ''access_token'' ''GITLAB_ACCESS_TOKEN''"

definition gateway_url_of :: "Env \<Rightarrow> string" where
  "gateway_url_of env = GetString env ''push_gateway_url'' ''PUSHGATEWAY_URL''"

section \<open>Stub clients of the testable properties\<close>

text \<open>A client that reports 10 projects without sub-groups and 25 with them.\<close>

definition subgroup_stub :: Client where
  "subgroup_stub =
     \<lparr>ListGroupProjects = (\<lambda>hist gid opts.
         Inr ([], \<lparr>TotalItems = (if opt_IncludeSubGroups opts = Some True then 25 else 10)\<rparr>)),
      ListGroupMembers = (\<lambda>hist gid opts. Inl ''unused'')\<rparr>"

text \<open>A client whose page of records does not have the size of the reported total.\<close>

definition total_stub :: Client where
  "total_stub =
     \<lparr>ListGroupProjects = (\<lambda>hist gid opts.
         Inr ([\<lparr>project_id = 11\<rparr>, \<lparr>project_id = 12\<rparr>, \<lparr>project_id = 13\<rparr>], \<lparr>TotalItems = 5\<rparr>)),
      ListGroupMembers = (\<lambda>hist gid opts. Inr ([], \<lparr>TotalItems = 4\<rparr>))\<rparr>"

text \<open>
  The stubs of the fatal short-circuit property: three groups with both collectors
  enabled, a client that cannot list the projects of the second group, and an
  environment in which everything else succeeds.
\<close>

definition failing_stub :: Client where
  "failing_stub =
     \<lparr>ListGroupProjects = (\<lambda>hist gid opts.
         if gid = ''G2'' then Inl ''404 Group Not Found'' else Inr ([], \<lparr>TotalItems = 1\<rparr>)),
      ListGroupMembers = (\<lambda>hist gid opts. Inr ([], \<lparr>TotalItems = 1\<rparr>))\<rparr>"

definition both_enabled :: "string \<Rightarrow> GroupConfig" where
  "both_enabled gid =
     \<lparr>ID = gid, ProjectCount = Some \<lparr>IncludeSubGroups = None\<rparr>,
      MemberCount = Some MemberCountConfig\<rparr>"

definition three_groups :: Config where
  "three_groups =
     \<lparr>DefaultLabels = None,
      Groups = [both_enabled ''G1'', both_enabled ''G2'', both_enabled ''G3'']\<rparr>"

definition stub_env :: "Client \<Rightarrow> Config \<Rightarrow> Env" where
  "stub_env git config =
     \<lparr>ReadInConfig = (\<lambda>file. None),
      GetString = (\<lambda>key envVar. if key = ''access_token'' then ''token'' else ''http://gateway''),
      Unmarshal = Inr config,
      NewClient = (\<lambda>tok. Inr git),
      Push = (\<lambda>pusher. None)\<rparr>"

definition empty_world :: world where
  "empty_world = \<lparr>heap = [], stdout = [], api_calls = [], push_calls = []\<rparr>"

text \<open>
  The stubs of the all-success property: the default labels \<open>{team: x}\<close> live at
  address 0, group G1 enables the project count only (3 projects), group G2 enables both
  collectors (7 projects, 2 members).
\<close>

definition end_to_end_stub :: Client where
  "end_to_end_stub =
     \<lparr>ListGroupProjects = (\<lambda>hist gid opts.
         Inr ([], \<lparr>TotalItems = (if gid = ''G1'' then 3 else 7)\<rparr>)),
      ListGroupMembers = (\<lambda>hist gid opts. Inr ([], \<lparr>TotalItems = 2\<rparr>))\<rparr>"

definition end_to_end_config :: Config where
  "end_to_end_config =
     \<lparr>DefaultLabels = Some 0,
      Groups = [\<lparr>ID = ''G1'', ProjectCount = Some \<lparr>IncludeSubGroups = None\<rparr>, MemberCount = None\<rparr>,
                both_enabled ''G2'']\<rparr>"

definition end_to_end_world :: world where
  "end_to_end_world =
     \<lparr>heap = [[''team'' \<mapsto> ''x'']], stdout = [], api_calls = [], push_calls = []\<rparr>"

text \<open>A metric sample is the name, the value and the labels of a gauge.\<close>

definition sample :: "Gauge \<Rightarrow> string \<times> int \<times> Labels" where
  "sample g = (Name g, gauge_value g, ConstLabels g)"

text \<open>
  The effect of a part of the loop on the store and on the pusher: map objects are only
  added, and every gauge added carries the original default labels overridden by the
  \<open>group_id\<close> of one of the groups.
\<close>

definition step_store ::
  "Config \<Rightarrow> GroupConfig list \<Rightarrow> Pusher \<Rightarrow> world \<Rightarrow> ((abort + Pusher) \<times> world) \<Rightarrow> bool" where
  "step_store cfg grps p w out =
     (case out of (r, w') \<Rightarrow>
        (\<exists>objs. heap w' = heap w @ objs)
        \<and> (case r of
             Inl e \<Rightarrow> True
           | Inr p' \<Rightarrow>
               \<exists>new. collectors p' = collectors p @ new
                 \<and> (valid_ref (heap w) (DefaultLabels cfg) \<longrightarrow>
                      (\<forall>g \<in> set new. \<exists>grp \<in> set grps.
                         ConstLabels g
                           = deref (heap w) (DefaultLabels cfg) ++ [''group_id'' \<mapsto> ID grp]))))"

section \<open>The label merger: last write wins\<close>

lemma map_add_self: "M ++ M = M"
  by (simp add: fun_eq_iff map_add_def split: option.splits)

lemma deref_snoc: "M ++ deref (h @ [M]) r = M ++ deref h r"
proof (cases r)
  case None
  then show ?thesis by (simp add: deref_def)
next
  case (Some a)
  consider "a < length h" | "a = length h" | "length h < a" by linarith
  then show ?thesis
    by cases (simp_all add: Some deref_def nth_append map_add_self)
qed

lemma maps_Copy_snoc: "maps_Copy (length h) r (h @ [M]) = h @ [M ++ deref h r]"
  by (simp add: maps_Copy_def deref_snoc)

lemma foldl_maps_Copy:
  "foldl (\<lambda>h' labels. maps_Copy (length h) labels h') (h @ [M]) rs
     = h @ [foldl (++) M (map (deref h) rs)]"
  by (induction rs arbitrary: M) (simp_all add: maps_Copy_snoc)

lemma mergeLabels_eq:
  "mergeLabels rs h = (length h, h @ [foldl (++) Map.empty (map (deref h) rs)])"
  by (simp add: mergeLabels_def new_map_def foldl_maps_Copy)

lemma mergeLabels_result_eq:
  "mergeLabels_result rs h = foldl (++) Map.empty (map (deref h) rs)"
  by (simp add: mergeLabels_result_def mergeLabels_eq deref_def)

lemma foldl_add_absent: "\<forall>m \<in> set ms. m k = None \<Longrightarrow> foldl (++) M ms k = M k"
  by (induction ms arbitrary: M) (simp_all add: map_add_def)

lemma foldl_add_latest:
  assumes "i < length ms" and "(ms ! i) k = Some v"
    and "\<forall>j. i < j \<and> j < length ms \<longrightarrow> (ms ! j) k = None"
  shows "foldl (++) M ms k = Some v"
proof -
  have split: "ms = take i ms @ (ms ! i) # drop (Suc i) ms"
    using assms(1) by (simp add: id_take_nth_drop)
  have later: "\<forall>m \<in> set (drop (Suc i) ms). m k = None"
  proof
    fix m assume "m \<in> set (drop (Suc i) ms)"
    then obtain n where n: "n < length (drop (Suc i) ms)" "m = drop (Suc i) ms ! n"
      by (metis in_set_conv_nth)
    then have "m = ms ! (Suc i + n)" and "Suc i + n < length ms" by auto
    with assms(3) show "m k = None" by simp
  qed
  have "foldl (++) M ms k = foldl (++) (foldl (++) M (take i ms) ++ (ms ! i)) (drop (Suc i) ms) k"
    by (subst split) simp
  also have "\<dots> = (foldl (++) M (take i ms) ++ (ms ! i)) k"
    using later by (rule foldl_add_absent)
  also have "\<dots> = Some v"
    using assms(2) by (simp add: map_add_def)
  finally show ?thesis .
qed

lemma foldl_add_filter:
  "foldl (++) M (filter (\<lambda>m. m \<noteq> Map.empty) ms) = foldl (++) M ms"
  by (induction ms arbitrary: M) simp_all

text \<open>
  Claim C3. The label merger, applied to any sequence of label sets, returns one map in
  which every key holds the value of the latest input set that contains the key, and a
  key that no input set contains is absent. Merging \<open>{env: prod}\<close> and then
  \<open>{group_id: 42, env: staging}\<close> gives \<open>{env: staging, group_id: 42}\<close>, and
  empty input sets contribute nothing.
\<close>

theorem mergeLabels_last_write_wins:
  "(\<forall>i k v. i < length rs \<and> deref h (rs ! i) k = Some v
        \<and> (\<forall>j. i < j \<and> j < length rs \<longrightarrow> deref h (rs ! j) k = None)
      \<longrightarrow> mergeLabels_result rs h k = Some v)
   \<and> (\<forall>k. (\<forall>i < length rs. deref h (rs ! i) k = None) \<longrightarrow> mergeLabels_result rs h k = None)
   \<and> mergeLabels_result [Some 0, Some 1]
        [[''env'' \<mapsto> ''prod''], [''group_id'' \<mapsto> ''42'', ''env'' \<mapsto> ''staging'']]
      = [''env'' \<mapsto> ''staging'', ''group_id'' \<mapsto> ''42'']
   \<and> mergeLabels_result (filter (\<lambda>r. deref h r \<noteq> Map.empty) rs) h = mergeLabels_result rs h"
proof (intro conjI allI impI)
  fix i k v
  assume a: "i < length rs \<and> deref h (rs ! i) k = Some v
        \<and> (\<forall>j. i < j \<and> j < length rs \<longrightarrow> deref h (rs ! j) k = None)"
  show "mergeLabels_result rs h k = Some v"
    unfolding mergeLabels_result_eq
    by (rule foldl_add_latest [where i = i]) (use a in simp_all)
next
  fix k assume "\<forall>i < length rs. deref h (rs ! i) k = None"
  then have "\<forall>m \<in> set (map (deref h) rs). m k = None"
    by (auto simp: in_set_conv_nth)
  then show "mergeLabels_result rs h k = None"
    unfolding mergeLabels_result_eq by (simp add: foldl_add_absent)
next
  show "mergeLabels_result [Some 0, Some 1]
        [[''env'' \<mapsto> ''prod''], [''group_id'' \<mapsto> ''42'', ''env'' \<mapsto> ''staging'']]
      = [''env'' \<mapsto> ''staging'', ''group_id'' \<mapsto> ''42'']"
    by (auto simp: mergeLabels_result_eq deref_def fun_eq_iff map_add_def)
next
  have "map (deref h) (filter (\<lambda>r. deref h r \<noteq> Map.empty) rs)
          = filter (\<lambda>m. m \<noteq> Map.empty) (map (deref h) rs)"
    by (simp add: filter_map comp_def)
  then show "mergeLabels_result (filter (\<lambda>r. deref h r \<noteq> Map.empty) rs) h = mergeLabels_result rs h"
    by (simp add: mergeLabels_result_eq foldl_add_filter)
qed

theorem mergeLabels_last_write_wins_witness:
  "deref [[''env'' \<mapsto> ''prod''], [''group_id'' \<mapsto> ''42'', ''env'' \<mapsto> ''staging'']]
       ([Some 0, Some 1] ! 1) ''env'' = Some ''staging''
   \<and> mergeLabels_result [Some 0, Some 1]
        [[''env'' \<mapsto> ''prod''], [''group_id'' \<mapsto> ''42'', ''env'' \<mapsto> ''staging'']] ''env''
      = Some ''staging''"
proof -
  let ?h = "[[''env'' \<mapsto> ''prod''], [''group_id'' \<mapsto> ''42'', ''env'' \<mapsto> ''staging'']]"
  have 1: "deref ?h ([Some 0, Some 1] ! 1) ''env'' = Some ''staging''"
    by (simp add: deref_def)
  have 2: "(1::nat) < length [Some 0, Some (1::nat)]" by simp
  have 3: "\<forall>j. 1 < j \<and> j < length [Some 0, Some (1::nat)] \<longrightarrow>
              deref ?h ([Some 0, Some 1] ! j) ''env'' = None"
  proof (intro allI impI)
    fix j :: nat
    assume "1 < j \<and> j < length [Some 0, Some (1::nat)]"
    then have False by auto
    then show "deref ?h ([Some 0, Some 1] ! j) ''env'' = None" ..
  qed
  from mergeLabels_last_write_wins [of "[Some 0, Some 1]" ?h] 1 2 3
  have "mergeLabels_result [Some 0, Some 1] ?h ''env'' = Some ''staging''"
    by blast
  with 1 show ?thesis by simp
qed

section \<open>Requests and results of the collectors\<close>

text \<open>
  Claim C4. The project-count collector honours \<open>IncludeSubGroups\<close> with default false:
  its one request carries \<open>include_subgroups = false\<close> when the option is absent and the
  option's value when it is set. With a client that reports 10 projects for false and 25
  for true, the collected value is 10 when the option is absent (or false) and 25 when
  it is true.
\<close>

theorem getProjectCount_include_subgroups:
  "ProjectCount grp = Some pc \<Longrightarrow>
     (\<exists>opts. api_calls (snd (getProjectCount git grp w))
               = api_calls w @ [ListGroupProjects_call (ID grp) opts]
        \<and> opt_IncludeSubGroups opts
            = (case IncludeSubGroups pc of None \<Rightarrow> Some False | Some b \<Rightarrow> Some b))
     \<and> (IncludeSubGroups pc = None \<longrightarrow> fst (getProjectCount subgroup_stub grp w) = Inr 10)
     \<and> (IncludeSubGroups pc = Some False \<longrightarrow> fst (getProjectCount subgroup_stub grp w) = Inr 10)
     \<and> (IncludeSubGroups pc = Some True \<longrightarrow> fst (getProjectCount subgroup_stub grp w) = Inr 25)"
  by (auto simp: getProjectCount_def subgroup_stub_def Let_def print_def
      split: option.splits sum.splits prod.splits)

theorem getProjectCount_include_subgroups_witness:
  "fst (getProjectCount subgroup_stub
          \<lparr>ID = ''42'', ProjectCount = Some \<lparr>IncludeSubGroups = None\<rparr>, MemberCount = None\<rparr>
          \<lparr>heap = [], stdout = [], api_calls = [], push_calls = []\<rparr>) = Inr 10
   \<and> fst (getProjectCount subgroup_stub
          \<lparr>ID = ''42'', ProjectCount = Some \<lparr>IncludeSubGroups = Some True\<rparr>, MemberCount = None\<rparr>
          \<lparr>heap = [], stdout = [], api_calls = [], push_calls = []\<rparr>) = Inr 25"
  using getProjectCount_include_subgroups
      [of "\<lparr>ID = ''42'', ProjectCount = Some \<lparr>IncludeSubGroups = None\<rparr>, MemberCount = None\<rparr>"
          "\<lparr>IncludeSubGroups = None\<rparr>" _
          "\<lparr>heap = [], stdout = [], api_calls = [], push_calls = []\<rparr>"]
    getProjectCount_include_subgroups
      [of "\<lparr>ID = ''42'', ProjectCount = Some \<lparr>IncludeSubGroups = Some True\<rparr>, MemberCount = None\<rparr>"
          "\<lparr>IncludeSubGroups = Some True\<rparr>" _
          "\<lparr>heap = [], stdout = [], api_calls = [], push_calls = []\<rparr>"]
  by simp

text \<open>
  Claim C5. Each collector makes one request, for page 1 with one item per page, and
  returns the total-item count of the response metadata, whatever records the response
  carries.
\<close>

theorem collectors_return_reported_total:
  "(ProjectCount grp = Some pc \<longrightarrow>
      (\<exists>opts. api_calls (snd (getProjectCount git grp w))
                = api_calls w @ [ListGroupProjects_call (ID grp) opts]
         \<and> Page (projects_ListOptions opts) = 1 \<and> PerPage (projects_ListOptions opts) = 1
         \<and> (\<forall>projects resp.
                ListGroupProjects git (api_calls w) (ID grp) opts = Inr (projects, resp)
                \<longrightarrow> fst (getProjectCount git grp w) = Inr (TotalItems resp))))
   \<and> (\<exists>opts. api_calls (snd (getGroupMembersCount git grp w))
                = api_calls w @ [ListGroupMembers_call (ID grp) opts]
         \<and> Page (members_ListOptions opts) = 1 \<and> PerPage (members_ListOptions opts) = 1
         \<and> (\<forall>members resp.
                ListGroupMembers git (api_calls w) (ID grp) opts = Inr (members, resp)
                \<longrightarrow> fst (getGroupMembersCount git grp w) = Inr (TotalItems resp)))"
  by (auto simp: getProjectCount_def getGroupMembersCount_def Let_def print_def
      split: option.splits sum.splits prod.splits)

theorem collectors_return_reported_total_witness:
  "ProjectCount \<lparr>ID = ''42'', ProjectCount = Some \<lparr>IncludeSubGroups = None\<rparr>, MemberCount = None\<rparr>
     = Some \<lparr>IncludeSubGroups = None\<rparr>
   \<and> fst (getProjectCount total_stub
          \<lparr>ID = ''42'', ProjectCount = Some \<lparr>IncludeSubGroups = None\<rparr>, MemberCount = None\<rparr>
          \<lparr>heap = [], stdout = [], api_calls = [], push_calls = []\<rparr>) = Inr 5
   \<and> fst (getGroupMembersCount total_stub
          \<lparr>ID = ''42'', ProjectCount = Some \<lparr>IncludeSubGroups = None\<rparr>, MemberCount = None\<rparr>
          \<lparr>heap = [], stdout = [], api_calls = [], push_calls = []\<rparr>) = Inr 4"
  using collectors_return_reported_total
      [of "\<lparr>ID = ''42'', ProjectCount = Some \<lparr>IncludeSubGroups = None\<rparr>, MemberCount = None\<rparr>"
          "\<lparr>IncludeSubGroups = None\<rparr>" total_stub
          "\<lparr>heap = [], stdout = [], api_calls = [], push_calls = []\<rparr>"]
  by (auto simp: total_stub_def)

section \<open>The call log of a run\<close>

lemma calls_ok_append:
  "calls_ok git h (xs @ ys) = (calls_ok git h xs \<and> calls_ok git (h @ xs) ys)"
  by (induction xs arbitrary: h) simp_all

lemma made_calls_ok: "calls_ok git h xs \<Longrightarrow> made_calls git h xs = xs"
  by (induction xs arbitrary: h) simp_all

lemma made_calls_append:
  "made_calls git h (xs @ ys) =
     (if calls_ok git h xs then xs @ made_calls git (h @ xs) ys else made_calls git h xs)"
  by (induction xs arbitrary: h) simp_all

lemma made_calls_failed_last:
  "i < length (made_calls git h xs) \<Longrightarrow>
   call_failed git (h @ take i (made_calls git h xs)) (made_calls git h xs ! i) \<Longrightarrow>
   Suc i = length (made_calls git h xs) \<and> \<not> calls_ok git h xs"
proof (induction xs arbitrary: h i)
  case Nil
  then show ?case by simp
next
  case (Cons c cs)
  show ?case
  proof (cases i)
    case 0
    with Cons.prems show ?thesis by simp
  next
    case (Suc j)
    with Cons.prems have ok: "\<not> call_failed git h c" by (auto split: if_splits)
    with Cons.prems Suc have "j < length (made_calls git (h @ [c]) cs)"
      and "call_failed git ((h @ [c]) @ take j (made_calls git (h @ [c]) cs))
             (made_calls git (h @ [c]) cs ! j)"
      by simp_all
    from Cons.IH [OF this] show ?thesis using ok Suc by simp
  qed
qed

lemma made_calls_not_ok:
  "\<not> calls_ok git h xs \<Longrightarrow>
   made_calls git h xs \<noteq> [] \<and>
   call_failed git (h @ butlast (made_calls git h xs)) (last (made_calls git h xs))"
proof (induction xs arbitrary: h)
  case Nil
  then show ?case by simp
next
  case (Cons c cs)
  show ?case
  proof (cases "call_failed git h c")
    case True
    then show ?thesis by simp
  next
    case False
    with Cons.prems have "\<not> calls_ok git (h @ [c]) cs" by simp
    from Cons.IH [OF this] show ?thesis using False by simp
  qed
qed

lemma project_count_step_trace:
  "step_trace git (project_calls grp) w (project_count_step git cfg grp p w)"
  by (auto simp: step_trace_def project_count_step_def project_calls_def getProjectCount_def
      labelled_gauge_def bind_prog_def print_def projects_query_def call_failed_def Let_def is_diagnostic_def
      is_diagnostic_def
      split: option.splits sum.splits prod.splits)

lemma member_count_step_trace:
  "step_trace git (member_calls grp) w (member_count_step git cfg grp p w)"
  by (auto simp: step_trace_def member_count_step_def member_calls_def getGroupMembersCount_def
      labelled_gauge_def bind_prog_def print_def members_query_def call_failed_def Let_def is_diagnostic_def
      is_diagnostic_def
      split: option.splits sum.splits prod.splits)

lemma step_trace_bind:
  fixes m :: "Pusher prog" and f :: "Pusher \<Rightarrow> Pusher prog"
  assumes "step_trace git xs w (m w)"
    and "\<And>q v. step_trace git ys v (f q v)"
  shows "step_trace git (xs @ ys) w (bind_prog m f w)"
proof (cases "m w")
  case (Pair r w1)
  show ?thesis
  proof (cases r)
    case (Inl e)
    with Pair assms(1) show ?thesis
      by (auto simp: step_trace_def bind_prog_def made_calls_append calls_ok_append)
  next
    case (Inr p1)
    obtain r2 w2 where f: "f p1 w1 = (r2, w2)" by (cases "f p1 w1")
    from Pair Inr assms(1) have 1: "api_calls w1 = api_calls w @ xs" "push_calls w1 = push_calls w"
      "calls_ok git (api_calls w) xs" "\<exists>msgs. stdout w1 = stdout w @ msgs"
      by (auto simp: step_trace_def made_calls_ok)
    from assms(2) [where q = p1 and v = w1] f have 2: "step_trace git ys w1 (r2, w2)" by simp
    show ?thesis
      using 1 2 Pair Inr f
      by (auto simp: step_trace_def bind_prog_def made_calls_append calls_ok_append split: sum.splits)
  qed
qed

lemma scrape_group_trace:
  "step_trace git (enabled_calls grp) w (scrape_group git cfg grp p w)"
  unfolding scrape_group_def enabled_calls_def
  by (rule step_trace_bind) (rule project_count_step_trace member_count_step_trace)+

lemma scrape_groups_trace:
  "step_trace git (concat (map enabled_calls grps)) w (scrape_groups git cfg grps p w)"
proof (induction grps arbitrary: p w)
  case Nil
  show ?case by (simp add: step_trace_def)
next
  case (Cons g gs)
  show ?case
    unfolding scrape_groups.simps list.map concat.simps
    by (rule step_trace_bind) (rule scrape_group_trace Cons.IH)+
qed

section \<open>Outcomes of \<open>scrape\<close> and of the command\<close>

lemma calls_ok_nth:
  "calls_ok git h cs \<Longrightarrow> i < length cs \<Longrightarrow> \<not> call_failed git (h @ take i cs) (cs ! i)"
proof (induction cs arbitrary: h i)
  case Nil
  then show ?case by simp
next
  case (Cons c cs)
  show ?case
  proof (cases i)
    case 0
    with Cons.prems show ?thesis by simp
  next
    case (Suc j)
    with Cons.prems Cons.IH [of "h @ [c]" j] show ?thesis by simp
  qed
qed

lemma scrape_NewClient_failed:
  "NewClient env tok = Inl err \<Longrightarrow>
   scrape env cfg tok u w = (Inl (OsExit 1), print (''Failed to create client: '' @ err @ newline) w)"
  by (simp add: scrape_def)

lemma scrape_outcome:
  assumes git: "NewClient env tok = Inr git"
    and run: "scrape env cfg tok u w = (r, w')"
  shows "api_calls w' = api_calls w @ made_calls git (api_calls w) (expected_calls cfg)"
    and "\<exists>msgs. stdout w' = stdout w @ msgs \<and>
           (if calls_ok git (api_calls w) (expected_calls cfg)
            then \<exists>p. push_calls w' = push_calls w @ [p] \<and>
                   (case Push env p of
                      None \<Rightarrow> r = Inr ()
                    | Some err \<Rightarrow> r = Inl (OsExit 1) \<and> msgs \<noteq> [] \<and> is_diagnostic (last msgs))
            else r = Inl (OsExit 1) \<and> push_calls w' = push_calls w
                 \<and> msgs \<noteq> [] \<and> is_diagnostic (last msgs))"
proof -
  obtain r1 w1 where g: "scrape_groups git cfg (Groups cfg) (push_New u ''gitlab_scrape'') w = (r1, w1)"
    by (cases "scrape_groups git cfg (Groups cfg) (push_New u ''gitlab_scrape'') w")
  have t: "step_trace git (expected_calls cfg) w (r1, w1)"
    using scrape_groups_trace [of git "Groups cfg" w cfg "push_New u ''gitlab_scrape''"] g
    by (simp add: expected_calls_def)
  then obtain msgs where m: "stdout w1 = stdout w @ msgs"
    by (auto simp: step_trace_def)
  have a: "api_calls w' = api_calls w1" "api_calls w1 = api_calls w @ made_calls git (api_calls w) (expected_calls cfg)"
    using run git g t
    by (auto simp: scrape_def step_trace_def Pusher_Push_def print_def split: sum.splits option.splits)
  show "api_calls w' = api_calls w @ made_calls git (api_calls w) (expected_calls cfg)"
    using a by simp
  show "\<exists>msgs. stdout w' = stdout w @ msgs \<and>
           (if calls_ok git (api_calls w) (expected_calls cfg)
            then \<exists>p. push_calls w' = push_calls w @ [p] \<and>
                   (case Push env p of
                      None \<Rightarrow> r = Inr ()
                    | Some err \<Rightarrow> r = Inl (OsExit 1) \<and> msgs \<noteq> [] \<and> is_diagnostic (last msgs))
            else r = Inl (OsExit 1) \<and> push_calls w' = push_calls w
                 \<and> msgs \<noteq> [] \<and> is_diagnostic (last msgs))"
  proof (cases r1)
    case (Inl e)
    with run git g t show ?thesis
      by (auto simp: scrape_def step_trace_def)
  next
    case (Inr p1)
    with t have ok: "calls_ok git (api_calls w) (expected_calls cfg)" "push_calls w1 = push_calls w"
      by (auto simp: step_trace_def)
    show ?thesis
    proof (cases "Push env p1")
      case None
      with run git g Inr ok m show ?thesis
        by (auto simp: scrape_def Pusher_Push_def)
    next
      case (Some err)
      with run git g Inr ok m show ?thesis
        by (auto simp: scrape_def Pusher_Push_def print_def is_diagnostic_def)
    qed
  qed
qed

lemma Run_unfold:
  "Run env cf w =
     (case ReadInConfig env cf of
        Some err \<Rightarrow> (Inl (OsExit 1), print (''Failed to read config file: '' @ err @ newline) w)
      | None \<Rightarrow>
          if token_of env = '''' then (Inl (OsExit 1), print (token_hint @ newline) w)
          else if gateway_url_of env = '''' then (Inl (OsExit 1), print (gateway_hint @ newline) w)
          else (case Unmarshal env of
                  Inl err \<Rightarrow>
                    (Inl (OsExit 1), print (''Failed to unmarshal config: '' @ err @ newline) w)
                | Inr cfg \<Rightarrow> scrape env cfg (token_of env) (gateway_url_of env) w))"
  by (simp add: Run_def getRequiredValue_def bind_prog_def token_of_def gateway_url_of_def Let_def
      split: option.splits sum.splits)

lemma is_diagnostic_hints:
  "is_diagnostic (token_hint @ s)" "is_diagnostic (gateway_hint @ s)"
  by (simp_all add: is_diagnostic_def)

lemma scrape_abort:
  assumes "scrape env cfg tok u w = (Inl e, w')"
  shows "e = OsExit 1 \<and> (\<exists>msgs d. stdout w' = stdout w @ msgs @ [d] \<and> is_diagnostic d)"
proof (cases "NewClient env tok")
  case (Inl err)
  with assms scrape_NewClient_failed [OF Inl, of cfg u w] show ?thesis
    by (auto simp: print_def is_diagnostic_def)
next
  case (Inr git)
  from scrape_outcome(2) [OF Inr assms]
  obtain msgs where "stdout w' = stdout w @ msgs" "e = OsExit 1" "msgs \<noteq> []" "is_diagnostic (last msgs)"
    by (auto split: if_splits option.splits)
  then have "e = OsExit 1" "stdout w' = stdout w @ butlast msgs @ [last msgs]" "is_diagnostic (last msgs)"
    by simp_all
  then show ?thesis by blast
qed

lemma Run_abort:
  assumes "Run env cf w = (Inl e, w')"
  shows "e = OsExit 1 \<and> (\<exists>msgs d. stdout w' = stdout w @ msgs @ [d] \<and> is_diagnostic d)"
proof -
  have direct: "e = OsExit 1 \<and> (\<exists>msgs d'. stdout w' = stdout w @ msgs @ [d'] \<and> is_diagnostic d')"
    if "(Inl (OsExit 1), print d w) = (Inl e, w')" and "is_diagnostic d" for d
  proof -
    from that(1) have "e = OsExit 1" "stdout w' = stdout w @ [] @ [d]"
      by (auto simp: print_def)
    with that(2) show ?thesis by blast
  qed
  have d1: "is_diagnostic (''Failed to read config file: '' @ s)"
    and d2: "is_diagnostic (''Failed to unmarshal config: '' @ s)" for s
    by (simp_all add: is_diagnostic_def)
  show ?thesis
  proof (cases "ReadInConfig env cf")
    case (Some err)
    with assms
    have "(Inl (OsExit 1), print (''Failed to read config file: '' @ err @ newline) w) = (Inl e, w')"
      unfolding Run_unfold by simp
    from direct [OF this d1] show ?thesis .
  next
    case None
    note read = this
    show ?thesis
    proof (cases "token_of env = []")
      case True
      with assms read
      have "(Inl (OsExit 1), print (token_hint @ newline) w) = (Inl e, w')"
        unfolding Run_unfold by simp
      from direct [OF this is_diagnostic_hints(1)] show ?thesis .
    next
      case False
      note token = this
      show ?thesis
      proof (cases "gateway_url_of env = []")
        case True
        with assms read token
        have "(Inl (OsExit 1), print (gateway_hint @ newline) w) = (Inl e, w')"
          unfolding Run_unfold by simp
        from direct [OF this is_diagnostic_hints(2)] show ?thesis .
      next
        case False
        show ?thesis
        proof (cases "Unmarshal env")
          case (Inl err)
          with assms read token False
          have "(Inl (OsExit 1), print (''Failed to unmarshal config: '' @ err @ newline) w) = (Inl e, w')"
            unfolding Run_unfold by simp
          from direct [OF this d2] show ?thesis .
        next
          case (Inr cfg)
          with assms read token False
          have "scrape env cfg (token_of env) (gateway_url_of env) w = (Inl e, w')"
            unfolding Run_unfold by simp
          then show ?thesis by (rule scrape_abort)
        qed
      qed
    qed
  qed
qed

section \<open>Failure policy\<close>

text \<open>
  Claim C6. Any collector failure is fatal to the whole run: when a request made during
  the run fails, the run ends with \<^verbatim>\<open>os.Exit(1)\<close>, the failed request is the last one
  made (no later metric spec and no later group is collected), and the publisher is
  never invoked, so no batch, partial or not, reaches the push step.
\<close>

theorem collector_failure_is_fatal:
  assumes "NewClient env tok = Inr git"
    and "scrape env cfg tok u w = (r, w')"
    and "api_calls w' = api_calls w @ cs"
    and "i < length cs"
    and "call_failed git (api_calls w @ take i cs) (cs ! i)"
  shows "r = Inl (OsExit 1) \<and> Suc i = length cs \<and> push_calls w' = push_calls w"
proof -
  have cs: "cs = made_calls git (api_calls w) (expected_calls cfg)"
    using scrape_outcome(1) [OF assms(1,2)] assms(3) by simp
  have last: "Suc i = length cs" and bad: "\<not> calls_ok git (api_calls w) (expected_calls cfg)"
    using made_calls_failed_last [of i git "api_calls w" "expected_calls cfg"] assms(4,5) cs
    by simp_all
  from scrape_outcome(2) [OF assms(1,2)] bad
  have "r = Inl (OsExit 1) \<and> push_calls w' = push_calls w" by auto
  with last show ?thesis by simp
qed

lemmas run_defs =
  scrape_def scrape_group_def project_count_step_def member_count_step_def
  getProjectCount_def getGroupMembersCount_def labelled_gauge_def mergeLabels_eq new_map_def
  deref_def bind_prog_def print_def push_New_def Pusher_Push_def float64_of_int_def Let_def

theorem collector_failure_is_fatal_witness:
  "fst (scrape (stub_env failing_stub three_groups) three_groups ''token'' ''http://gateway''
          empty_world) = Inl (OsExit 1)
   \<and> api_calls (snd (scrape (stub_env failing_stub three_groups) three_groups ''token''
          ''http://gateway'' empty_world))
      = [projects_query ''G1'' False, members_query ''G1'', projects_query ''G2'' False]
   \<and> push_calls (snd (scrape (stub_env failing_stub three_groups) three_groups ''token''
          ''http://gateway'' empty_world)) = []"
proof -
  let ?run = "scrape (stub_env failing_stub three_groups) three_groups ''token''
                ''http://gateway'' empty_world"
  let ?cs = "[projects_query ''G1'' False, members_query ''G1'', projects_query ''G2'' False]"
  have calls: "api_calls (snd ?run) = api_calls empty_world @ ?cs"
    by (simp add: run_defs stub_env_def failing_stub_def three_groups_def both_enabled_def
        empty_world_def projects_query_def members_query_def)
  have client: "NewClient (stub_env failing_stub three_groups) ''token'' = Inr failing_stub"
    by (simp add: stub_env_def)
  have failed: "call_failed failing_stub (api_calls empty_world @ take 2 ?cs) (?cs ! 2)"
    by (simp add: call_failed_def projects_query_def failing_stub_def)
  have "fst ?run = Inl (OsExit 1) \<and> Suc 2 = length ?cs
        \<and> push_calls (snd ?run) = push_calls empty_world"
    by (rule collector_failure_is_fatal [OF client _ calls _ failed]) simp_all
  with calls show ?thesis by (simp add: empty_world_def)
qed

text \<open>
  Claim C9. The project-count collector dereferences the \<open>ProjectCount\<close>
  sub-configuration without a check (with a nil \<open>ProjectCount\<close> it panics), but the
  pipeline calls it only behind the check: for every configuration, client and
  environment, neither the loop, nor \<open>scrape\<close>, nor the command ends in a nil
  dereference.
\<close>

theorem no_nil_dereference:
  "(ProjectCount grp = None \<longrightarrow> fst (getProjectCount git grp w) = Inl NilDereference)
   \<and> fst (scrape_groups git cfg grps p w) \<noteq> Inl NilDereference
   \<and> fst (scrape env cfg tok u w) \<noteq> Inl NilDereference
   \<and> fst (Run env cf w) \<noteq> Inl NilDereference"
proof (intro conjI impI)
  assume "ProjectCount grp = None"
  then show "fst (getProjectCount git grp w) = Inl NilDereference"
    by (simp add: getProjectCount_def)
next
  show "fst (scrape_groups git cfg grps p w) \<noteq> Inl NilDereference"
    using scrape_groups_trace [of git grps w cfg p]
    by (cases "scrape_groups git cfg grps p w") (auto simp: step_trace_def)
next
  show "fst (scrape env cfg tok u w) \<noteq> Inl NilDereference"
    using scrape_abort [of env cfg tok u w]
    by (cases "scrape env cfg tok u w") auto
next
  show "fst (Run env cf w) \<noteq> Inl NilDereference"
    using Run_abort [of env cf w]
    by (cases "Run env cf w") auto
qed

theorem no_nil_dereference_witness:
  "ProjectCount \<lparr>ID = ''42'', ProjectCount = None, MemberCount = Some MemberCountConfig\<rparr> = None
   \<and> fst (getProjectCount total_stub
            \<lparr>ID = ''42'', ProjectCount = None, MemberCount = Some MemberCountConfig\<rparr> empty_world)
       = Inl NilDereference
   \<and> fst (scrape_groups total_stub three_groups
            [\<lparr>ID = ''42'', ProjectCount = None, MemberCount = Some MemberCountConfig\<rparr>]
            (push_New ''http://gateway'' ''gitlab_scrape'') empty_world) \<noteq> Inl NilDereference"
  using no_nil_dereference
    [where grp = "\<lparr>ID = ''42'', ProjectCount = None, MemberCount = Some MemberCountConfig\<rparr>"
       and git = total_stub and w = empty_world and cfg = three_groups
       and grps = "[\<lparr>ID = ''42'', ProjectCount = None, MemberCount = Some MemberCountConfig\<rparr>]"
       and p = "push_New ''http://gateway'' ''gitlab_scrape''"]
  by simp

text \<open>
  Claim C7 says that a collector failure comes back to the caller as a returned failure
  value. It does not: the collectors return a plain count, and on a failed request the
  collector itself prints the diagnostic and ends the process. With the client that
  cannot list the projects of group G2, the collector does not return at all.
\<close>

theorem collector_failure_not_returned_counterexample:
  "call_failed failing_stub (api_calls empty_world) (projects_query ''G2'' False)
   \<and> isl (fst (getProjectCount failing_stub (both_enabled ''G2'') empty_world))
   \<and> fst (getProjectCount failing_stub (both_enabled ''G2'') empty_world) = Inl (OsExit 1)
   \<and> stdout (snd (getProjectCount failing_stub (both_enabled ''G2'') empty_world))
      = [''Failed to list projects for group G2: 404 Group Not Found'' @ newline]"
  by (simp add: getProjectCount_def call_failed_def projects_query_def failing_stub_def
      both_enabled_def empty_world_def print_def)

text \<open>
  Claim C7, as amended. When a collector's request fails, the collector makes that one
  request only (no retry), prints a diagnostic and ends the process with
  \<^verbatim>\<open>os.Exit(1)\<close>; no value is returned, and the enclosing block, the loop body and the
  loop end in that same exit with the world the collector left, so the failure is
  neither suppressed nor handled by any caller.
\<close>

theorem collector_failure_exits:
  "(ProjectCount grp = Some pc
      \<and> call_failed git (api_calls w) (projects_query (ID grp) (IncludeSubGroups pc = Some True))
    \<longrightarrow> fst (getProjectCount git grp w) = Inl (OsExit 1)
        \<and> api_calls (snd (getProjectCount git grp w))
            = api_calls w @ [projects_query (ID grp) (IncludeSubGroups pc = Some True)]
        \<and> (\<exists>d. stdout (snd (getProjectCount git grp w)) = stdout w @ [d] \<and> is_diagnostic d)
        \<and> project_count_step git cfg grp p w
            = (Inl (OsExit 1), snd (getProjectCount git grp w))
        \<and> scrape_group git cfg grp p w = (Inl (OsExit 1), snd (getProjectCount git grp w))
        \<and> scrape_groups git cfg (grp # grps) p w
            = (Inl (OsExit 1), snd (getProjectCount git grp w)))
   \<and> (MemberCount grp \<noteq> None \<and> call_failed git (api_calls w) (members_query (ID grp))
    \<longrightarrow> fst (getGroupMembersCount git grp w) = Inl (OsExit 1)
        \<and> api_calls (snd (getGroupMembersCount git grp w))
            = api_calls w @ [members_query (ID grp)]
        \<and> (\<exists>d. stdout (snd (getGroupMembersCount git grp w)) = stdout w @ [d] \<and> is_diagnostic d)
        \<and> member_count_step git cfg grp p w
            = (Inl (OsExit 1), snd (getGroupMembersCount git grp w)))
   \<and> (\<forall>e w'. project_count_step git cfg grp p w = (Inl e, w')
         \<longrightarrow> scrape_group git cfg grp p w = (Inl e, w'))
   \<and> (\<forall>e w' p1 w1. project_count_step git cfg grp p w = (Inr p1, w1)
           \<and> member_count_step git cfg grp p1 w1 = (Inl e, w')
         \<longrightarrow> scrape_group git cfg grp p w = (Inl e, w'))
   \<and> (\<forall>e w'. scrape_group git cfg grp p w = (Inl e, w')
         \<longrightarrow> scrape_groups git cfg (grp # grps) p w = (Inl e, w'))"
proof (intro conjI impI allI)
  assume a: "ProjectCount grp = Some pc
      \<and> call_failed git (api_calls w) (projects_query (ID grp) (IncludeSubGroups pc = Some True))"
  then obtain err where err:
    "ListGroupProjects git (api_calls w) (ID grp)
       \<lparr>projects_ListOptions = \<lparr>Page = 1, PerPage = 1\<rparr>,
        opt_IncludeSubGroups = Some (IncludeSubGroups pc = Some True), Simple = Some True\<rparr> = Inl err"
    by (auto simp: call_failed_def projects_query_def split: sum.splits)
  have sub: "(case IncludeSubGroups pc of None \<Rightarrow> False | Some b \<Rightarrow> b) = (IncludeSubGroups pc = Some True)"
    by (cases "IncludeSubGroups pc") auto
  have run: "getProjectCount git grp w =
     (Inl (OsExit 1),
      print (''Failed to list projects for group '' @ ID grp @ '': '' @ err @ newline)
        (w\<lparr>api_calls := api_calls w @ [projects_query (ID grp) (IncludeSubGroups pc = Some True)]\<rparr>))"
    using a err by (simp add: getProjectCount_def sub projects_query_def)
  show "fst (getProjectCount git grp w) = Inl (OsExit 1)"
    by (simp add: run)
  show "api_calls (snd (getProjectCount git grp w))
            = api_calls w @ [projects_query (ID grp) (IncludeSubGroups pc = Some True)]"
    by (simp add: run print_def)
  show "\<exists>d. stdout (snd (getProjectCount git grp w)) = stdout w @ [d] \<and> is_diagnostic d"
    by (simp add: run print_def is_diagnostic_def)
  show step: "project_count_step git cfg grp p w
            = (Inl (OsExit 1), snd (getProjectCount git grp w))"
    using a by (simp add: project_count_step_def bind_prog_def run)
  show "scrape_group git cfg grp p w = (Inl (OsExit 1), snd (getProjectCount git grp w))"
    by (simp add: scrape_group_def bind_prog_def step)
  then show "scrape_groups git cfg (grp # grps) p w
            = (Inl (OsExit 1), snd (getProjectCount git grp w))"
    by (simp add: bind_prog_def)
next
  assume a: "MemberCount grp \<noteq> None \<and> call_failed git (api_calls w) (members_query (ID grp))"
  then obtain err where err:
    "ListGroupMembers git (api_calls w) (ID grp) \<lparr>members_ListOptions = \<lparr>Page = 1, PerPage = 1\<rparr>\<rparr>
       = Inl err"
    by (auto simp: call_failed_def members_query_def split: sum.splits)
  have run: "getGroupMembersCount git grp w =
     (Inl (OsExit 1),
      print (''Failed to list members for group '' @ ID grp @ '': '' @ err @ newline)
        (w\<lparr>api_calls := api_calls w @ [members_query (ID grp)]\<rparr>))"
    using err by (simp add: getGroupMembersCount_def members_query_def)
  show "fst (getGroupMembersCount git grp w) = Inl (OsExit 1)"
    by (simp add: run)
  show "api_calls (snd (getGroupMembersCount git grp w)) = api_calls w @ [members_query (ID grp)]"
    by (simp add: run print_def)
  show "\<exists>d. stdout (snd (getGroupMembersCount git grp w)) = stdout w @ [d] \<and> is_diagnostic d"
    by (simp add: run print_def is_diagnostic_def)
  show "member_count_step git cfg grp p w = (Inl (OsExit 1), snd (getGroupMembersCount git grp w))"
    using a by (simp add: member_count_step_def bind_prog_def run)
next
  fix e w'
  assume "project_count_step git cfg grp p w = (Inl e, w')"
  then show "scrape_group git cfg grp p w = (Inl e, w')"
    by (simp add: scrape_group_def bind_prog_def)
next
  fix e w' p1 w1
  assume "project_count_step git cfg grp p w = (Inr p1, w1)
           \<and> member_count_step git cfg grp p1 w1 = (Inl e, w')"
  then show "scrape_group git cfg grp p w = (Inl e, w')"
    by (simp add: scrape_group_def bind_prog_def)
next
  fix e w'
  assume "scrape_group git cfg grp p w = (Inl e, w')"
  then show "scrape_groups git cfg (grp # grps) p w = (Inl e, w')"
    by (simp add: bind_prog_def)
qed

theorem collector_failure_exits_witness:
  "ProjectCount (both_enabled ''G2'') = Some \<lparr>IncludeSubGroups = None\<rparr>
   \<and> call_failed failing_stub (api_calls empty_world) (projects_query ''G2'' False)
   \<and> scrape_groups failing_stub three_groups [both_enabled ''G2'', both_enabled ''G3'']
        (push_New ''http://gateway'' ''gitlab_scrape'') empty_world
      = (Inl (OsExit 1), snd (getProjectCount failing_stub (both_enabled ''G2'') empty_world))"
proof -
  have 1: "ProjectCount (both_enabled ''G2'') = Some \<lparr>IncludeSubGroups = None\<rparr>"
    by (simp add: both_enabled_def)
  have 2: "call_failed failing_stub (api_calls empty_world)
             (projects_query (ID (both_enabled ''G2''))
                (IncludeSubGroups \<lparr>IncludeSubGroups = None\<rparr> = Some True))"
    by (simp add: call_failed_def projects_query_def failing_stub_def both_enabled_def)
  from collector_failure_exits
    [where grp = "both_enabled ''G2''" and pc = "\<lparr>IncludeSubGroups = None\<rparr>"
       and git = failing_stub and w = empty_world and cfg = three_groups
       and p = "push_New ''http://gateway'' ''gitlab_scrape''" and grps = "[both_enabled ''G3'']"]
    1 2
  have "scrape_groups failing_stub three_groups [both_enabled ''G2'', both_enabled ''G3'']
        (push_New ''http://gateway'' ''gitlab_scrape'') empty_world
      = (Inl (OsExit 1), snd (getProjectCount failing_stub (both_enabled ''G2'') empty_world))"
    by blast
  with 1 2 show ?thesis by (simp add: both_enabled_def)
qed

section \<open>Exit behaviour of the command\<close>

lemma scrape_returns:
  assumes "scrape env cfg tok u w = (Inr x, w')"
  shows "\<exists>git p. NewClient env tok = Inr git
           \<and> api_calls w' = api_calls w @ expected_calls cfg
           \<and> calls_ok git (api_calls w) (expected_calls cfg)
           \<and> push_calls w' = push_calls w @ [p] \<and> Push env p = None"
proof (cases "NewClient env tok")
  case (Inl err)
  with assms show ?thesis by (simp add: scrape_def)
next
  case (Inr git)
  have ok: "calls_ok git (api_calls w) (expected_calls cfg)"
    using scrape_outcome(2) [OF Inr assms] by (auto split: if_splits)
  then obtain p where "push_calls w' = push_calls w @ [p]" "Push env p = None"
    using scrape_outcome(2) [OF Inr assms] by (auto split: if_splits option.splits)
  moreover have "api_calls w' = api_calls w @ expected_calls cfg"
    using scrape_outcome(1) [OF Inr assms] ok by (simp add: made_calls_ok)
  ultimately show ?thesis using Inr ok by blast
qed

lemma scrape_succeeds:
  assumes "NewClient env tok = Inr git"
    and "calls_ok git (api_calls w) (expected_calls cfg)"
    and "scrape env cfg tok u w = (r, w')"
    and "push_calls w' = push_calls w @ [p]" and "Push env p = None"
  shows "r = Inr ()"
  using scrape_outcome(2) [OF assms(1,3)] assms(2,4,5)
  by (auto split: option.splits)

lemma Run_scrape:
  assumes "ReadInConfig env cf = None" "token_of env \<noteq> []" "gateway_url_of env \<noteq> []"
    and "Unmarshal env = Inr cfg"
  shows "Run env cf w = scrape env cfg (token_of env) (gateway_url_of env) w"
  using assms unfolding Run_unfold by simp

lemma Run_returns:
  assumes "Run env cf w = (Inr x, w')"
  shows "ReadInConfig env cf = None \<and> token_of env \<noteq> [] \<and> gateway_url_of env \<noteq> [] \<and>
         (\<exists>cfg git p. Unmarshal env = Inr cfg \<and> NewClient env (token_of env) = Inr git
            \<and> api_calls w' = api_calls w @ expected_calls cfg
            \<and> calls_ok git (api_calls w) (expected_calls cfg)
            \<and> push_calls w' = push_calls w @ [p] \<and> Push env p = None)"
proof -
  from assms have 1: "ReadInConfig env cf = None" "token_of env \<noteq> []" "gateway_url_of env \<noteq> []"
    unfolding Run_unfold by (auto split: option.splits if_splits)
  with assms obtain cfg where 2: "Unmarshal env = Inr cfg"
    unfolding Run_unfold by (auto split: sum.splits)
  from assms have "scrape env cfg (token_of env) (gateway_url_of env) w = (Inr x, w')"
    by (simp add: Run_scrape [OF 1 2])
  from scrape_returns [OF this] 1 2 show ?thesis by blast
qed

text \<open>
  Claim C8. The process exits with a non-zero status and prints a diagnostic when the
  configuration cannot be read or mapped, when the access token or the gateway URL is
  missing, when a collector request fails or when the push fails. It exits with status
  zero exactly when the configuration is read and mapped, both values are present, the
  client is created, every enabled collector of every group is invoked and succeeds,
  and the one push succeeds.
\<close>

theorem exit_behaviour:
  assumes "Run env cf w = (r, w')"
  shows
    "((ReadInConfig env cf \<noteq> None \<or> token_of env = [] \<or> gateway_url_of env = []
        \<or> isl (Unmarshal env)
        \<or> (\<exists>git cs i. NewClient env (token_of env) = Inr git
               \<and> api_calls w' = api_calls w @ cs \<and> i < length cs
               \<and> call_failed git (api_calls w @ take i cs) (cs ! i))
        \<or> (\<exists>p ps. push_calls w' = push_calls w @ p # ps \<and> Push env p \<noteq> None))
      \<longrightarrow> exit_status r = 1
          \<and> (\<exists>msgs d. stdout w' = stdout w @ msgs @ [d] \<and> is_diagnostic d))
     \<and> (exit_status r = 0 \<longleftrightarrow>
          ReadInConfig env cf = None \<and> token_of env \<noteq> [] \<and> gateway_url_of env \<noteq> [] \<and>
          (\<exists>cfg git p. Unmarshal env = Inr cfg \<and> NewClient env (token_of env) = Inr git
             \<and> api_calls w' = api_calls w @ expected_calls cfg
             \<and> calls_ok git (api_calls w) (expected_calls cfg)
             \<and> push_calls w' = push_calls w @ [p] \<and> Push env p = None))"
    (is "(?failure \<longrightarrow> ?exit1) \<and> (exit_status r = 0 \<longleftrightarrow> ?success)")
proof -
  have abort: "?exit1 \<and> exit_status r \<noteq> 0" if "r \<noteq> Inr ()"
  proof -
    from that obtain e where e: "r = Inl e" by (cases r) auto
    from Run_abort [of env cf w e w'] assms e show ?thesis
      by (simp add: exit_status_def)
  qed
  have returns: "?success" if "r = Inr ()"
    using Run_returns [of env cf w "()" w'] assms that by simp
  have conv: "r = Inr ()" if "?success"
  proof -
    from that obtain cfg git p where
      1: "ReadInConfig env cf = None" "token_of env \<noteq> []" "gateway_url_of env \<noteq> []"
      and 2: "Unmarshal env = Inr cfg" and 3: "NewClient env (token_of env) = Inr git"
      and 4: "calls_ok git (api_calls w) (expected_calls cfg)"
      and 5: "push_calls w' = push_calls w @ [p]" "Push env p = None"
      by blast
    from assms have "scrape env cfg (token_of env) (gateway_url_of env) w = (r, w')"
      by (simp add: Run_scrape [OF 1 2])
    from scrape_succeeds [OF 3 4 this 5] show ?thesis .
  qed
  have no_failure: "\<not> ?failure" if "?success"
  proof -
    from that obtain cfg git p where
      1: "ReadInConfig env cf = None" "token_of env \<noteq> []" "gateway_url_of env \<noteq> []"
      and 2: "Unmarshal env = Inr cfg" and 3: "NewClient env (token_of env) = Inr git"
      and 4: "api_calls w' = api_calls w @ expected_calls cfg"
        "calls_ok git (api_calls w) (expected_calls cfg)"
      and 5: "push_calls w' = push_calls w @ [p]" "Push env p = None"
      by blast
    have "\<not> (\<exists>git cs i. NewClient env (token_of env) = Inr git
               \<and> api_calls w' = api_calls w @ cs \<and> i < length cs
               \<and> call_failed git (api_calls w @ take i cs) (cs ! i))"
      using 3 4 calls_ok_nth [of git "api_calls w" "expected_calls cfg"] by auto
    moreover have "\<not> (\<exists>p ps. push_calls w' = push_calls w @ p # ps \<and> Push env p \<noteq> None)"
      using 5 by auto
    ultimately show ?thesis using 1 2 by auto
  qed
  have "?failure \<longrightarrow> ?exit1"
    using abort returns no_failure by blast
  moreover have "exit_status r = 0 \<longleftrightarrow> ?success"
  proof
    assume "exit_status r = 0"
    with abort have "r = Inr ()" by blast
    then show ?success by (rule returns)
  next
    assume ?success
    then have "r = Inr ()" by (rule conv)
    then show "exit_status r = 0" by (simp add: exit_status_def)
  qed
  ultimately show ?thesis by blast
qed

theorem exit_behaviour_witness:
  "exit_status (fst (Run (stub_env failing_stub three_groups) ''config.json'' empty_world)) = 1
   \<and> exit_status (fst (Run (stub_env total_stub three_groups) ''config.json'' empty_world)) = 0"
proof -
  let ?bad = "Run (stub_env failing_stub three_groups) ''config.json'' empty_world"
  let ?good = "Run (stub_env total_stub three_groups) ''config.json'' empty_world"
  let ?cs = "[projects_query ''G1'' False, members_query ''G1'', projects_query ''G2'' False]"
  have calls: "api_calls (snd ?bad) = api_calls empty_world @ ?cs"
    by (simp add: Run_def getRequiredValue_def run_defs stub_env_def failing_stub_def
        three_groups_def both_enabled_def empty_world_def projects_query_def members_query_def)
  have client: "NewClient (stub_env failing_stub three_groups)
                  (token_of (stub_env failing_stub three_groups)) = Inr failing_stub"
    by (simp add: stub_env_def)
  have failed: "call_failed failing_stub (api_calls empty_world @ take 2 ?cs) (?cs ! 2)"
    by (simp add: call_failed_def projects_query_def failing_stub_def)
  have "\<exists>git cs i. NewClient (stub_env failing_stub three_groups)
                      (token_of (stub_env failing_stub three_groups)) = Inr git
          \<and> api_calls (snd ?bad) = api_calls empty_world @ cs \<and> i < length cs
          \<and> call_failed git (api_calls empty_world @ take i cs) (cs ! i)"
    using client calls failed by (intro exI [of _ failing_stub] exI [of _ ?cs] exI [of _ 2]) simp
  with exit_behaviour [of "stub_env failing_stub three_groups" "''config.json''" empty_world
      "fst ?bad" "snd ?bad"]
  have bad: "exit_status (fst ?bad) = 1" by simp
  have config: "ReadInConfig (stub_env total_stub three_groups) ''config.json'' = None"
    "token_of (stub_env total_stub three_groups) \<noteq> []"
    "gateway_url_of (stub_env total_stub three_groups) \<noteq> []"
    "Unmarshal (stub_env total_stub three_groups) = Inr three_groups"
    "NewClient (stub_env total_stub three_groups)
       (token_of (stub_env total_stub three_groups)) = Inr total_stub"
    by (simp_all add: stub_env_def token_of_def gateway_url_of_def)
  have all_calls: "api_calls (snd ?good) = api_calls empty_world @ expected_calls three_groups"
    by (simp add: Run_def getRequiredValue_def run_defs stub_env_def total_stub_def
        three_groups_def both_enabled_def empty_world_def projects_query_def members_query_def
        expected_calls_def enabled_calls_def project_calls_def member_calls_def)
  have ok: "calls_ok total_stub (api_calls empty_world) (expected_calls three_groups)"
    by (simp add: expected_calls_def enabled_calls_def project_calls_def member_calls_def
        three_groups_def both_enabled_def projects_query_def members_query_def call_failed_def
        total_stub_def)
  have pushed: "\<exists>p. push_calls (snd ?good) = push_calls empty_world @ [p]
                  \<and> Push (stub_env total_stub three_groups) p = None"
    by (simp add: Run_def getRequiredValue_def run_defs stub_env_def total_stub_def
        three_groups_def both_enabled_def empty_world_def)
  from config all_calls ok pushed
    exit_behaviour [of "stub_env total_stub three_groups" "''config.json''" empty_world
      "fst ?good" "snd ?good"]
  have "exit_status (fst ?good) = 0" by auto
  with bad show ?thesis by simp
qed

section \<open>Samples and the store\<close>

lemma deref_valid_append: "valid_ref h r \<Longrightarrow> deref (h @ objs) r = deref h r"
  by (auto simp: valid_ref_def deref_def nth_append split: option.splits)

lemma valid_ref_append: "valid_ref h r \<Longrightarrow> valid_ref (h @ objs) r"
  by (auto simp: valid_ref_def split: option.splits)

lemma labelled_gauge_run:
  "labelled_gauge name help cfg grp n p w =
     (Inr (p\<lparr>collectors := collectors p @
             [\<lparr>Name = name, Help = help,
               ConstLabels = deref (heap w @ [[''group_id'' \<mapsto> ID grp]]) (DefaultLabels cfg)
                               ++ [''group_id'' \<mapsto> ID grp],
               gauge_value = float64_of_int n\<rparr>]\<rparr>),
      w\<lparr>heap := heap w @
            [[''group_id'' \<mapsto> ID grp],
             deref (heap w @ [[''group_id'' \<mapsto> ID grp]]) (DefaultLabels cfg)
               ++ [''group_id'' \<mapsto> ID grp]]\<rparr>)"
  by (simp add: labelled_gauge_def new_map_def mergeLabels_eq deref_def nth_append)

lemma project_count_step_absent:
  "ProjectCount grp = None \<Longrightarrow> project_count_step git cfg grp p w = (Inr p, w)"
  by (simp add: project_count_step_def)

lemma member_count_step_absent:
  "MemberCount grp = None \<Longrightarrow> member_count_step git cfg grp p w = (Inr p, w)"
  by (simp add: member_count_step_def)



lemma project_count_step_sample:
  assumes "project_count_step git cfg grp p w = (Inr p', w')" and "ProjectCount grp = Some pc"
  shows "\<exists>g n. collectors p' = collectors p @ [g] \<and> Name g = ''gitlab_group_project_count''
           \<and> fst (getProjectCount git grp w) = Inr n \<and> gauge_value g = float64_of_int n"
  using assms
  by (cases "getProjectCount git grp w")
     (auto simp: project_count_step_def labelled_gauge_run bind_prog_def split: sum.splits)

lemma member_count_step_sample:
  assumes "member_count_step git cfg grp p w = (Inr p', w')" and "MemberCount grp = Some mc"
  shows "\<exists>g n. collectors p' = collectors p @ [g] \<and> Name g = ''gitlab_group_members_count''
           \<and> fst (getGroupMembersCount git grp w) = Inr n \<and> gauge_value g = float64_of_int n"
  using assms
  by (cases "getGroupMembersCount git grp w")
     (auto simp: member_count_step_def labelled_gauge_run bind_prog_def split: sum.splits)

lemma scrape_group_steps:
  "scrape_group git cfg grp p w =
     (case project_count_step git cfg grp p w of
        (Inl e, w1) \<Rightarrow> (Inl e, w1)
      | (Inr p1, w1) \<Rightarrow> member_count_step git cfg grp p1 w1)"
  by (simp add: scrape_group_def bind_prog_def)

lemma scrape_group_samples:
  assumes "scrape_group git cfg grp p w = (Inr p', w')"
  shows "\<exists>ps ms. collectors p' = collectors p @ ps @ ms
     \<and> (case ProjectCount grp of None \<Rightarrow> ps = []
        | Some pc \<Rightarrow> \<exists>g n. ps = [g] \<and> Name g = ''gitlab_group_project_count''
            \<and> fst (getProjectCount git grp w) = Inr n \<and> gauge_value g = float64_of_int n)
     \<and> (case MemberCount grp of None \<Rightarrow> ms = []
        | Some mc \<Rightarrow> \<exists>g n. ms = [g] \<and> Name g = ''gitlab_group_members_count''
            \<and> fst (getGroupMembersCount git grp (snd (project_count_step git cfg grp p w))) = Inr n
            \<and> gauge_value g = float64_of_int n)"
proof -
  from assms obtain p1 w1 where
    1: "project_count_step git cfg grp p w = (Inr p1, w1)"
    and 2: "member_count_step git cfg grp p1 w1 = (Inr p', w')"
    by (auto simp: scrape_group_steps split: prod.splits sum.splits)
  have "\<exists>ps. collectors p1 = collectors p @ ps
     \<and> (case ProjectCount grp of None \<Rightarrow> ps = []
        | Some pc \<Rightarrow> \<exists>g n. ps = [g] \<and> Name g = ''gitlab_group_project_count''
            \<and> fst (getProjectCount git grp w) = Inr n \<and> gauge_value g = float64_of_int n)"
  proof (cases "ProjectCount grp")
    case None
    with 1 show ?thesis by (simp add: project_count_step_absent)
  next
    case (Some pc)
    from project_count_step_sample [OF 1 Some] Some show ?thesis by auto
  qed
  then obtain ps where ps: "collectors p1 = collectors p @ ps"
     "case ProjectCount grp of None \<Rightarrow> ps = []
        | Some pc \<Rightarrow> \<exists>g n. ps = [g] \<and> Name g = ''gitlab_group_project_count''
            \<and> fst (getProjectCount git grp w) = Inr n \<and> gauge_value g = float64_of_int n"
    by blast
  have "\<exists>ms. collectors p' = collectors p1 @ ms
     \<and> (case MemberCount grp of None \<Rightarrow> ms = []
        | Some mc \<Rightarrow> \<exists>g n. ms = [g] \<and> Name g = ''gitlab_group_members_count''
            \<and> fst (getGroupMembersCount git grp w1) = Inr n
            \<and> gauge_value g = float64_of_int n)"
  proof (cases "MemberCount grp")
    case None
    with 2 show ?thesis by (simp add: member_count_step_absent)
  next
    case (Some mc)
    from member_count_step_sample [OF 2 Some] Some show ?thesis by auto
  qed
  then obtain ms where ms: "collectors p' = collectors p1 @ ms"
     "case MemberCount grp of None \<Rightarrow> ms = []
        | Some mc \<Rightarrow> \<exists>g n. ms = [g] \<and> Name g = ''gitlab_group_members_count''
            \<and> fst (getGroupMembersCount git grp w1) = Inr n
            \<and> gauge_value g = float64_of_int n"
    by blast
  from ps(1) ms(1) have all: "collectors p' = collectors p @ ps @ ms" by simp
  from 1 have "snd (project_count_step git cfg grp p w) = w1" by simp
  with ms(2) have "case MemberCount grp of None \<Rightarrow> ms = []
        | Some mc \<Rightarrow> \<exists>g n. ms = [g] \<and> Name g = ''gitlab_group_members_count''
            \<and> fst (getGroupMembersCount git grp (snd (project_count_step git cfg grp p w))) = Inr n
            \<and> gauge_value g = float64_of_int n"
    by (auto split: option.splits)
  with all ps(2) show ?thesis by blast
qed


lemma step_store_mono:
  "step_store cfg gs p w out \<Longrightarrow> set gs \<subseteq> set gs' \<Longrightarrow> step_store cfg gs' p w out"
  unfolding step_store_def
  by (cases out) (fastforce split: sum.splits)

lemma project_count_step_store:
  "step_store cfg [grp] p w (project_count_step git cfg grp p w)"
  by (auto simp: step_store_def project_count_step_def getProjectCount_def labelled_gauge_run
      bind_prog_def print_def deref_valid_append Let_def
      split: option.splits sum.splits prod.splits)

lemma member_count_step_store:
  "step_store cfg [grp] p w (member_count_step git cfg grp p w)"
  by (auto simp: step_store_def member_count_step_def getGroupMembersCount_def labelled_gauge_run
      bind_prog_def print_def deref_valid_append Let_def
      split: option.splits sum.splits prod.splits)

lemma step_store_bind:
  fixes m :: "Pusher prog" and f :: "Pusher \<Rightarrow> Pusher prog"
  assumes "step_store cfg gs1 p w (m w)"
    and "\<And>q v. step_store cfg gs2 q v (f q v)"
  shows "step_store cfg (gs1 @ gs2) p w (bind_prog m f w)"
proof (cases "m w")
  case (Pair r w1)
  show ?thesis
  proof (cases r)
    case (Inl e)
    with Pair assms(1) show ?thesis
      by (simp add: step_store_def bind_prog_def)
  next
    case (Inr p1)
    obtain r2 w2 where f: "f p1 w1 = (r2, w2)" by (cases "f p1 w1")
    from Pair Inr assms(1) obtain objs1 new1 where
      1: "heap w1 = heap w @ objs1" "collectors p1 = collectors p @ new1"
        "valid_ref (heap w) (DefaultLabels cfg) \<longrightarrow>
           (\<forall>g \<in> set new1. \<exists>grp \<in> set gs1.
              ConstLabels g = deref (heap w) (DefaultLabels cfg) ++ [''group_id'' \<mapsto> ID grp])"
      by (auto simp: step_store_def)
    from assms(2) [where q = p1 and v = w1] f obtain objs2 where
      2: "heap w2 = heap w1 @ objs2"
      by (auto simp: step_store_def)
    have run: "bind_prog m f w = (r2, w2)"
      using Pair Inr f by (simp add: bind_prog_def)
    have heap: "\<exists>objs. heap w2 = heap w @ objs"
      using 1(1) 2 by simp
    show ?thesis
    proof (cases r2)
      case (Inl e)
      with run heap show ?thesis by (simp add: step_store_def)
    next
      case (Inr p2)
      with assms(2) [where q = p1 and v = w1] f obtain new2 where
        3: "collectors p2 = collectors p1 @ new2"
          "valid_ref (heap w1) (DefaultLabels cfg) \<longrightarrow>
             (\<forall>g \<in> set new2. \<exists>grp \<in> set gs2.
                ConstLabels g = deref (heap w1) (DefaultLabels cfg) ++ [''group_id'' \<mapsto> ID grp])"
        by (auto simp: step_store_def)
      have "collectors p2 = collectors p @ (new1 @ new2)"
        using 1(2) 3(1) by simp
      moreover have "\<forall>g \<in> set (new1 @ new2). \<exists>grp \<in> set (gs1 @ gs2).
              ConstLabels g = deref (heap w) (DefaultLabels cfg) ++ [''group_id'' \<mapsto> ID grp]"
        if v: "valid_ref (heap w) (DefaultLabels cfg)"
      proof -
        from v 1(1) have "valid_ref (heap w1) (DefaultLabels cfg)"
          and "deref (heap w1) (DefaultLabels cfg) = deref (heap w) (DefaultLabels cfg)"
          by (simp_all add: valid_ref_append deref_valid_append)
        with 1(3) 3(2) v show ?thesis by auto
      qed
      ultimately have "\<exists>new. collectors p2 = collectors p @ new
          \<and> (valid_ref (heap w) (DefaultLabels cfg) \<longrightarrow>
               (\<forall>g \<in> set new. \<exists>grp \<in> set (gs1 @ gs2).
                  ConstLabels g = deref (heap w) (DefaultLabels cfg) ++ [''group_id'' \<mapsto> ID grp]))"
        by blast
      with run heap Inr show ?thesis by (simp add: step_store_def)
    qed
  qed
qed

lemma scrape_group_store:
  "step_store cfg [grp] p w (scrape_group git cfg grp p w)"
proof -
  have "step_store cfg ([grp] @ [grp]) p w (scrape_group git cfg grp p w)"
    unfolding scrape_group_def
    by (rule step_store_bind) (rule project_count_step_store member_count_step_store)+
  then show ?thesis by (rule step_store_mono) simp
qed

lemma scrape_groups_store:
  "step_store cfg grps p w (scrape_groups git cfg grps p w)"
proof (induction grps arbitrary: p w)
  case Nil
  show ?case by (simp add: step_store_def)
next
  case (Cons g gs)
  have "step_store cfg ([g] @ gs) p w (scrape_groups git cfg (g # gs) p w)"
    unfolding scrape_groups.simps
    by (rule step_store_bind) (rule scrape_group_store Cons.IH)+
  then show ?case by simp
qed

text \<open>
  Claim C10. The label merger allocates a fresh map object (its address is the first
  unused one) and changes no existing object, so every input label set reads the same
  afterwards. Over the whole loop no existing map object changes either: the default
  labels of the configuration read the same after any number of groups, and every
  gauge collected carries the original default labels overridden by the \<open>group_id\<close> of
  its group.
\<close>

theorem label_sets_never_mutated:
  "fst (mergeLabels rs h) = length h
   \<and> length (snd (mergeLabels rs h)) = Suc (length h)
   \<and> (\<forall>a < length h. snd (mergeLabels rs h) ! a = h ! a)
   \<and> (\<forall>r \<in> set rs. valid_ref h r \<longrightarrow> deref (snd (mergeLabels rs h)) r = deref h r)
   \<and> (\<forall>a < length (heap w). heap (snd (scrape_groups git cfg grps p w)) ! a = heap w ! a)
   \<and> (valid_ref (heap w) (DefaultLabels cfg) \<longrightarrow>
        deref (heap (snd (scrape_groups git cfg grps p w))) (DefaultLabels cfg)
          = deref (heap w) (DefaultLabels cfg)
        \<and> (\<forall>p' w'. scrape_groups git cfg grps p w = (Inr p', w') \<longrightarrow>
             (\<exists>new. collectors p' = collectors p @ new
                \<and> (\<forall>g \<in> set new. \<exists>grp \<in> set grps.
                     ConstLabels g
                       = deref (heap w) (DefaultLabels cfg) ++ [''group_id'' \<mapsto> ID grp]))))"
proof -
  obtain r w1 where run: "scrape_groups git cfg grps p w = (r, w1)"
    by (cases "scrape_groups git cfg grps p w")
  from scrape_groups_store [of cfg grps p w git] run
  obtain objs where objs: "heap w1 = heap w @ objs"
    by (auto simp: step_store_def)
  have merge: "mergeLabels rs h = (length h, h @ [foldl (++) Map.empty (map (deref h) rs)])"
    by (rule mergeLabels_eq)
  have "\<forall>a < length h. snd (mergeLabels rs h) ! a = h ! a"
    by (simp add: merge nth_append)
  moreover have "\<forall>r \<in> set rs. valid_ref h r \<longrightarrow> deref (snd (mergeLabels rs h)) r = deref h r"
    by (simp add: merge deref_valid_append)
  moreover have "\<forall>a < length (heap w). heap (snd (scrape_groups git cfg grps p w)) ! a = heap w ! a"
    by (simp add: run objs nth_append)
  moreover have "deref (heap (snd (scrape_groups git cfg grps p w))) (DefaultLabels cfg)
          = deref (heap w) (DefaultLabels cfg)"
    if "valid_ref (heap w) (DefaultLabels cfg)"
    using that by (simp add: run objs deref_valid_append)
  moreover have "\<exists>new. collectors p' = collectors p @ new
                \<and> (\<forall>g \<in> set new. \<exists>grp \<in> set grps.
                     ConstLabels g
                       = deref (heap w) (DefaultLabels cfg) ++ [''group_id'' \<mapsto> ID grp])"
    if "valid_ref (heap w) (DefaultLabels cfg)"
      and "scrape_groups git cfg grps p w = (Inr p', w')" for p' w'
    using scrape_groups_store [of cfg grps p w git] that
    by (auto simp: step_store_def)
  ultimately show ?thesis
    by (simp add: merge)
qed

theorem label_sets_never_mutated_witness:
  "valid_ref (heap end_to_end_world) (DefaultLabels end_to_end_config)
   \<and> deref (heap end_to_end_world) (DefaultLabels end_to_end_config) = [''team'' \<mapsto> ''x'']
   \<and> deref (heap (snd (scrape_groups end_to_end_stub end_to_end_config
                          (Groups end_to_end_config)
                          (push_New ''http://gateway'' ''gitlab_scrape'') end_to_end_world)))
        (DefaultLabels end_to_end_config) = [''team'' \<mapsto> ''x'']"
proof -
  have 1: "valid_ref (heap end_to_end_world) (DefaultLabels end_to_end_config)"
    by (simp add: valid_ref_def end_to_end_world_def end_to_end_config_def)
  have 2: "deref (heap end_to_end_world) (DefaultLabels end_to_end_config) = [''team'' \<mapsto> ''x'']"
    by (simp add: deref_def end_to_end_world_def end_to_end_config_def)
  from label_sets_never_mutated
    [where w = end_to_end_world and cfg = end_to_end_config and git = end_to_end_stub
       and grps = "Groups end_to_end_config"
       and p = "push_New ''http://gateway'' ''gitlab_scrape''"] 1
  have "deref (heap (snd (scrape_groups end_to_end_stub end_to_end_config
                          (Groups end_to_end_config)
                          (push_New ''http://gateway'' ''gitlab_scrape'') end_to_end_world)))
        (DefaultLabels end_to_end_config)
        = deref (heap end_to_end_world) (DefaultLabels end_to_end_config)"
    by blast
  with 1 2 show ?thesis by simp
qed

section \<open>The samples of a group and of a run\<close>



lemma scrape_group_names:
  assumes "scrape_group git cfg grp p w = (Inr p', w')"
  shows "map Name (collectors p') =
           map Name (collectors p)
           @ (if ProjectCount grp = None then [] else [''gitlab_group_project_count''])
           @ (if MemberCount grp = None then [] else [''gitlab_group_members_count''])"
  using scrape_group_samples [OF assms]
  by (auto split: option.splits)

text \<open>
  Claim C1. For the configuration with default labels \<open>{team: x}\<close>, group G1 with the
  project count only (3 projects) and group G2 with both specs (7 projects, 2 members),
  the command exits with status 0 and the gateway receives one push, under the job
  \<open>gitlab_scrape\<close>, of exactly three samples in this order: the project count 3 of G1, the
  project count 7 of G2 and the member count 2 of G2, each labelled with \<open>team\<close> and its
  \<open>group_id\<close>. For every group, the project-count sample precedes the member-count
  sample.
\<close>

theorem end_to_end_samples:
  "exit_status (fst (Run (stub_env end_to_end_stub end_to_end_config) ''config.json''
                      end_to_end_world)) = 0
   \<and> map (\<lambda>p. (url p, job p, map sample (collectors p)))
         (push_calls (snd (Run (stub_env end_to_end_stub end_to_end_config) ''config.json''
                             end_to_end_world)))
      = [(''http://gateway'', ''gitlab_scrape'',
          [(''gitlab_group_project_count'', 3, [''team'' \<mapsto> ''x'', ''group_id'' \<mapsto> ''G1'']),
           (''gitlab_group_project_count'', 7, [''team'' \<mapsto> ''x'', ''group_id'' \<mapsto> ''G2'']),
           (''gitlab_group_members_count'', 2, [''team'' \<mapsto> ''x'', ''group_id'' \<mapsto> ''G2''])])]
   \<and> (\<forall>git cfg grp p w p' w'.
         scrape_group git cfg grp p w = (Inr p', w') \<longrightarrow>
         map Name (collectors p') =
           map Name (collectors p)
           @ (if ProjectCount grp = None then [] else [''gitlab_group_project_count''])
           @ (if MemberCount grp = None then [] else [''gitlab_group_members_count'']))"
proof (intro conjI allI impI)
  show "exit_status (fst (Run (stub_env end_to_end_stub end_to_end_config) ''config.json''
                      end_to_end_world)) = 0"
    by (simp add: Run_def getRequiredValue_def run_defs stub_env_def end_to_end_stub_def
        end_to_end_config_def end_to_end_world_def both_enabled_def exit_status_def)
next
  show "map (\<lambda>p. (url p, job p, map sample (collectors p)))
         (push_calls (snd (Run (stub_env end_to_end_stub end_to_end_config) ''config.json''
                             end_to_end_world)))
      = [(''http://gateway'', ''gitlab_scrape'',
          [(''gitlab_group_project_count'', 3, [''team'' \<mapsto> ''x'', ''group_id'' \<mapsto> ''G1'']),
           (''gitlab_group_project_count'', 7, [''team'' \<mapsto> ''x'', ''group_id'' \<mapsto> ''G2'']),
           (''gitlab_group_members_count'', 2, [''team'' \<mapsto> ''x'', ''group_id'' \<mapsto> ''G2''])])]"
    by (simp add: Run_def getRequiredValue_def run_defs stub_env_def end_to_end_stub_def
        end_to_end_config_def end_to_end_world_def both_enabled_def sample_def)
next
  fix git cfg grp p w p' w'
  assume "scrape_group git cfg grp p w = (Inr p', w')"
  then show "map Name (collectors p') =
           map Name (collectors p)
           @ (if ProjectCount grp = None then [] else [''gitlab_group_project_count''])
           @ (if MemberCount grp = None then [] else [''gitlab_group_members_count''])"
    by (rule scrape_group_names)
qed

theorem end_to_end_samples_witness:
  "(case fst (scrape_group end_to_end_stub end_to_end_config (both_enabled ''G2'')
               (push_New ''http://gateway'' ''gitlab_scrape'') end_to_end_world) of
      Inl e \<Rightarrow> False
    | Inr p' \<Rightarrow> map Name (collectors p')
                 = [''gitlab_group_project_count'', ''gitlab_group_members_count''])"
proof -
  let ?run = "scrape_group end_to_end_stub end_to_end_config (both_enabled ''G2'')
               (push_New ''http://gateway'' ''gitlab_scrape'') end_to_end_world"
  have "\<exists>p'. fst ?run = Inr p'"
    by (simp add: run_defs end_to_end_stub_def both_enabled_def)
  then obtain p' where ret: "fst ?run = Inr p'" ..
  then have "?run = (Inr p', snd ?run)"
    by (simp add: prod_eq_iff)
  with end_to_end_samples
  have "map Name (collectors p') =
           map Name (collectors (push_New ''http://gateway'' ''gitlab_scrape''))
           @ (if ProjectCount (both_enabled ''G2'') = None then []
              else [''gitlab_group_project_count''])
           @ (if MemberCount (both_enabled ''G2'') = None then []
              else [''gitlab_group_members_count''])"
    by blast
  with ret show ?thesis
    by (simp add: push_New_def both_enabled_def)
qed

end
